theory Spec2Isabelle
  imports Complex_Main "HOL-Library.Word" "HOL-Library.AList"
begin

section \<open>Bytes, JSON values and JavaScript errors\<close>

type_synonym byte = "8 word"
type_synonym bytes = "byte list"

text \<open>
  A value produced by \<open>JSON.parse\<close> or handed over as \<open>Record<string, any>\<close>. Numbers are
  exact reals: the time claims are epoch seconds, far below the range where a double
  rounds, and \<open>NaN\<close> and the infinities are left out. An object is the list of its own
  properties; a property that is not there reads as \<open>undefined\<close>, which is \<open>None\<close> of
  \<open>json option\<close>.
\<close>

datatype json =
    JNull
  | JBool bool
  | JNum real
  | JStr string
  | JArr "json list"
  | JObj "(string \<times> json) list"

text \<open>
  Every \<open>throw\<close> of the source is a constructor; \<open>TypeErrorNull\<close> is the engine's error for
  reading a property of \<open>null\<close>, and \<open>LibraryError\<close> carries the message of an error thrown
  inside a library call (\<open>bs58.decode\<close>, \<open>JSON.parse\<close>, \<open>ed25519.verify\<close>, ...).
\<close>

datatype js_error =
    InvalidJWTFormat
  | NoValidSubject
  | UnsupportedAlgorithm "json option"
  | InvalidIssuer "json option"
  | TokenExpired
  | TokenNotYetValid
  | TokenTooOld
  | SS58RawTooShort nat
  | DecodedKeyNot32
  | InvalidSignature
  | PrivateKeyNotHexOrBase64
  | InvalidPrivateKeyLength nat
  | TypeErrorNull string
  | LibraryError string

section \<open>The base-58 codec (package bs58)\<close>

text \<open>
  \<open>bs58.encode\<close> and \<open>bs58.decode\<close> belong to the imported package \<open>bs58\<close>, whose source
  is not part of the repository; the program only calls them. The digits of the codec:
  the Bitcoin alphabet, the value of a big-endian digit list in base \<open>b\<close>, and the digits
  of a number in base \<open>b\<close> without leading zeros.
\<close>

definition ALPHABET :: string where
  "ALPHABET = ''123456789ABCDEFGHJKLMNPQRSTUVWXYZabcdefghijkmnopqrstuvwxyz''"

definition be_val :: "nat \<Rightarrow> nat list \<Rightarrow> nat" where
  "be_val b ds = foldl (\<lambda>acc d. acc * b + d) 0 ds"

function to_digits :: "nat \<Rightarrow> nat \<Rightarrow> nat list" where
  "to_digits b n = (if n = 0 \<or> b < 2 then [] else to_digits b (n div b) @ [n mod b])"
  by pat_completeness auto
termination
  by (relation "measure (\<lambda>(b, n). n)") auto

declare to_digits.simps [simp del]

fun index_of :: "'a \<Rightarrow> 'a list \<Rightarrow> nat option" where
  "index_of c [] = None"
| "index_of c (x # xs) =
     (if c = x then Some 0 else map_option Suc (index_of c xs))"

fun all_some :: "'a option list \<Rightarrow> 'a list option" where
  "all_some [] = Some []"
| "all_some (None # xs) = None"
| "all_some (Some x # xs) = map_option ((#) x) (all_some xs)"

text \<open>
  Modelled from the spec: \<open>bs58.encode\<close>, which is missing from the sources. The spec
  calls it "a base-58 alphabet encoding (no padding, leading-zero-aware)": every leading
  zero byte becomes one leading \<open>1\<close>, and the remaining bytes, read as a big-endian
  number, are written in base 58 without leading zero digits.
\<close>

definition bs58_encode :: "bytes \<Rightarrow> string" where
  "bs58_encode source =
     (let zeroes = length (takeWhile (\<lambda>x. x = 0) source);
          n = be_val 256 (map unat (dropWhile (\<lambda>x. x = 0) source))
      in replicate zeroes (CHR ''1'') @ map (\<lambda>d. ALPHABET ! d) (to_digits 58 n))"

text \<open>
  Modelled from the spec: \<open>bs58.decode\<close>, which is missing from the sources; the spec
  says that the address is "base-58-decoded to raw bytes". The leading \<open>1\<close>s are counted
  and become zero bytes, the remaining characters are read as a base-58 number and
  written in base 256 without leading zero bytes, and a character outside the alphabet
  makes the call throw.
\<close>

definition bs58_decode :: "string \<Rightarrow> js_error + bytes" where
  "bs58_decode source =
     (let zeroes = length (takeWhile (\<lambda>c. c = CHR ''1'') source);
          rest = dropWhile (\<lambda>c. c = CHR ''1'') source
      in case all_some (map (\<lambda>c. index_of c ALPHABET) rest) of
           None \<Rightarrow> Inl (LibraryError ''Non-base58 character'')
         | Some ds \<Rightarrow> Inr (replicate zeroes 0 @ map of_nat (to_digits 256 (be_val 58 ds))))"

section \<open>The platform\<close>

text \<open>
  The functions the program calls but does not define (Node's \<open>Buffer\<close>, \<open>JSON\<close>,
  \<open>fetch\<close>, the packages \<open>blake2b\<close> and \<open>@noble/ed25519\<close>, the language's \<open>String\<close>
  conversion) are the fields of a record, so every theorem holds for every behaviour
  they may have. A field with a sum type may throw: \<open>Inl\<close> carries the message.
\<close>

record platform =
  blake2b :: "nat \<Rightarrow> bytes \<Rightarrow> bytes"
  buffer_from_base64url :: "string \<Rightarrow> bytes"
  buffer_to_base64url :: "bytes \<Rightarrow> string"
  buffer_from_utf8 :: "string \<Rightarrow> bytes"
  buffer_to_utf8 :: "bytes \<Rightarrow> string"
  buffer_from_base64 :: "string \<Rightarrow> string + bytes"
  json_parse :: "string \<Rightarrow> string + json"
  json_stringify :: "json \<Rightarrow> string"
  js_String :: "json option \<Rightarrow> string"
  ed25519_getPublicKey :: "bytes \<Rightarrow> bytes"
  ed25519_sign :: "bytes \<Rightarrow> bytes \<Rightarrow> bytes"
  ed25519_verify :: "bytes \<Rightarrow> bytes \<Rightarrow> bytes \<Rightarrow> string + bool"
  fetch :: "string \<Rightarrow> string + (bool \<times> (string + json))"

section \<open>utils.ts: the SS58 address codec\<close>

text \<open>\<open>buf.slice(start, end)\<close> for \<open>0 \<le> start \<le> end\<close>: clipped at the end of the buffer.\<close>

definition buf_slice :: "nat \<Rightarrow> nat \<Rightarrow> 'a list \<Rightarrow> 'a list" where
  "buf_slice start end xs = take (end - start) (drop start xs)"

definition ss58DecodePublicKey :: "string \<Rightarrow> js_error + bytes" where
  "ss58DecodePublicKey ss58Addr =
     (case bs58_decode ss58Addr of
        Inl e \<Rightarrow> Inl e
      | Inr raw \<Rightarrow>
          if length raw < 1 + 32 + 2 then Inl (SS58RawTooShort (length raw))
          else
            let prefixLen =
                  (if length raw = 1 + 32 + 2 then 1
                   else if length raw = 2 + 32 + 2 then 2
                   else length raw - 32 - 2);
                pubkey = buf_slice prefixLen (prefixLen + 32) raw
            in if length pubkey \<noteq> 32 then Inl DecodedKeyNot32 else Inr pubkey)"

text \<open>
  \<open>Buffer.from([prefix])\<close> stores the prefix modulo 256. The default \<open>prefix = 42\<close> of the
  signature is supplied by the caller in \<open>generateToken\<close>.
\<close>

definition generateSS58Address :: "platform \<Rightarrow> bytes \<Rightarrow> int \<Rightarrow> string" where
  "generateSS58Address P publicKey prefix =
     (let checksumInput = [word_of_int prefix] @ publicKey;
          fullHash = blake2b P 64 checksumInput;
          checksum = buf_slice 0 2 fullHash;
          addressBytes = [word_of_int prefix] @ publicKey @ checksum
      in bs58_encode addressBytes)"

section \<open>JavaScript values: truthiness, \<open>typeof\<close>, property reads\<close>

text \<open>\<open>!!v\<close>: \<open>undefined\<close>, \<open>null\<close>, \<open>false\<close>, \<open>0\<close> and the empty string are falsy.\<close>

fun truthy :: "json option \<Rightarrow> bool" where
  "truthy None = False"
| "truthy (Some JNull) = False"
| "truthy (Some (JBool b)) = b"
| "truthy (Some (JNum x)) = (x \<noteq> 0)"
| "truthy (Some (JStr s)) = (s \<noteq> [])"
| "truthy (Some (JArr xs)) = True"
| "truthy (Some (JObj kvs)) = True"

fun typeof_number :: "json option \<Rightarrow> bool" where
  "typeof_number (Some (JNum x)) = True"
| "typeof_number v = False"

fun typeof_string :: "json option \<Rightarrow> bool" where
  "typeof_string (Some (JStr s)) = True"
| "typeof_string v = False"

text \<open>The number and the string inside a value; read only behind the \<open>typeof\<close> guards.\<close>

fun num_value :: "json option \<Rightarrow> real" where
  "num_value (Some (JNum x)) = x"
| "num_value v = 0"

fun str_value :: "json option \<Rightarrow> string" where
  "str_value (Some (JStr s)) = s"
| "str_value v = []"

text \<open>
  \<open>v.k\<close> for the property names the program reads (\<open>sub\<close>, \<open>alg\<close>, \<open>iss\<close>, \<open>exp\<close>,
  \<open>nbf\<close>, \<open>iat\<close>): reading a property of \<open>null\<close> throws a TypeError, an object gives
  its own property, and a number, string, boolean or array has none of these names.
\<close>

fun js_get :: "json \<Rightarrow> string \<Rightarrow> js_error + json option" where
  "js_get JNull k = Inl (TypeErrorNull k)"
| "js_get (JObj kvs) k = Inr (map_of kvs k)"
| "js_get v k = Inr None"

text \<open>\<open>xs.includes(v)\<close> on a list of strings: strict equality, so only a string can match.\<close>

fun array_includes :: "string list \<Rightarrow> json option \<Rightarrow> bool" where
  "array_includes xs (Some (JStr s)) = (s \<in> set xs)"
| "array_includes xs v = False"

text \<open>\<open>{...base, ...extra}\<close>: each property of \<open>extra\<close>, in order, is set on the object.\<close>

definition obj_spread :: "(string \<times> json) list \<Rightarrow> (string \<times> json) list \<Rightarrow> (string \<times> json) list" where
  "obj_spread base extra = fold (\<lambda>(k, v). AList.update k v) extra base"

text \<open>\<open>s.split(c)\<close> for a one-character separator.\<close>

fun split_on :: "char \<Rightarrow> string \<Rightarrow> string list" where
  "split_on c [] = [[]]"
| "split_on c (x # xs) =
     (if x = c then [] # split_on c xs
      else (case split_on c xs of
              [] \<Rightarrow> [[x]]
            | p # ps \<Rightarrow> (x # p) # ps))"

text \<open>A natural number inside a template literal: its decimal digits.\<close>

definition show_nat :: "nat \<Rightarrow> string" where
  "show_nat n =
     (if n = 0 then ''0'' else map (\<lambda>d. char_of (48 + d)) (to_digits 10 n))"

section \<open>utils.ts: base64url, token splitting, time claims\<close>

definition b64urlDecode :: "platform \<Rightarrow> string \<Rightarrow> bytes" where
  "b64urlDecode P data =
     (let pad = 4 - (length data mod 4);
          padded = (if pad = 4 then data else data @ replicate pad (CHR ''=''))
      in buffer_from_base64url P padded)"

definition b64urlEncode :: "platform \<Rightarrow> bytes \<Rightarrow> string" where
  "b64urlEncode P data = buffer_to_base64url P data"

definition splitJWT :: "platform \<Rightarrow> string \<Rightarrow> js_error + (json \<times> json \<times> bytes)" where
  "splitJWT P token =
     (let parts = split_on (CHR ''.'') token
      in if length parts \<noteq> 3 then Inl InvalidJWTFormat
         else
           let h = parts ! 0; p = parts ! 1; s = parts ! 2
           in case json_parse P (buffer_to_utf8 P (b64urlDecode P h)) of
                Inl m \<Rightarrow> Inl (LibraryError m)
              | Inr header \<Rightarrow>
                  (case json_parse P (buffer_to_utf8 P (b64urlDecode P p)) of
                     Inl m \<Rightarrow> Inl (LibraryError m)
                   | Inr payload \<Rightarrow> Inr (header, payload, b64urlDecode P s)))"

text \<open>
  \<open>validateTokenTimes(payload, maxAge?)\<close>. The function has no \<open>now\<close> parameter: its first
  statement reads the system clock, \<open>now = Math.floor(Date.now() / 1000)\<close>. The clock
  reading \<open>Date.now()\<close> (milliseconds) is the argument \<open>dateNow\<close> of the model.
\<close>

definition validateTokenTimes :: "int \<Rightarrow> json \<Rightarrow> real option \<Rightarrow> js_error + unit" where
  "validateTokenTimes dateNow payload maxAge =
     (let now = dateNow div 1000
      in case js_get payload ''exp'' of
           Inl e \<Rightarrow> Inl e
         | Inr exp' \<Rightarrow>
             if truthy exp' \<and> typeof_number exp' \<and> of_int now \<ge> num_value exp'
             then Inl TokenExpired
             else
               (case js_get payload ''nbf'' of
                  Inl e \<Rightarrow> Inl e
                | Inr nbf \<Rightarrow>
                    if truthy nbf \<and> typeof_number nbf \<and> of_int now < num_value nbf
                    then Inl TokenNotYetValid
                    else
                      (case maxAge of
                         None \<Rightarrow> Inr ()
                       | Some age \<Rightarrow>
                           if age = 0 then Inr ()
                           else
                             (case js_get payload ''iat'' of
                                Inl e \<Rightarrow> Inl e
                              | Inr iat \<Rightarrow>
                                  if truthy iat \<and> typeof_number iat
                                     \<and> of_int now > num_value iat + age
                                  then Inl TokenTooOld
                                  else Inr ()))))"

section \<open>core.ts: verification\<close>

record TokenVerifierOptions =
  didBaseUrl :: "string option"
  allowedIssuers :: "string list option"
  maxTokenAge :: "real option"

record VerifyTokenResult =
  success :: bool
  error :: "string option"
  claims :: "json option"
  didDocument :: "json option"

text \<open>The calls that leave the program, in the order they are made.\<close>

datatype event =
    Ed25519Verify bytes bytes bytes
  | Fetch string
  | ConsoleWarn string

text \<open>The \<open>message\<close> of each thrown \<open>Error\<close>.\<close>

fun error_message :: "platform \<Rightarrow> js_error \<Rightarrow> string" where
  "error_message P InvalidJWTFormat = ''Invalid JWT format''"
| "error_message P NoValidSubject = ''JWT payload has no valid subject''"
| "error_message P (UnsupportedAlgorithm alg) =
     ''Unsupported algorithm: '' @ js_String P alg @ '', expected EdDSA''"
| "error_message P (InvalidIssuer iss) = ''Invalid issuer: '' @ js_String P iss"
| "error_message P TokenExpired = ''Token expired''"
| "error_message P TokenNotYetValid = ''Token not yet valid''"
| "error_message P TokenTooOld = ''Token too old''"
| "error_message P (SS58RawTooShort n) = ''SS58 raw too short: '' @ show_nat n @ '' bytes''"
| "error_message P DecodedKeyNot32 = ''Decoded public key is not 32 bytes''"
| "error_message P InvalidSignature = ''Invalid JWT signature''"
| "error_message P PrivateKeyNotHexOrBase64 =
     ''Private key string must be valid hex or base64''"
| "error_message P (InvalidPrivateKeyLength n) =
     ''Ed25519 private key must be 32 bytes, got '' @ show_nat n"
| "error_message P (TypeErrorNull k) =
     ''Cannot read properties of null (reading '' @ [CHR 0x27] @ k @ [CHR 0x27] @ '')''"
| "error_message P (LibraryError m) = m"

text \<open>
  Step 8 of \<open>verifyToken\<close>: the optional DID document. A failed \<open>fetch\<close> or
  \<open>response.json()\<close> is caught by the inner \<open>try\<close>, warned about and ignored.
\<close>

definition fetchDidDocument :: "platform \<Rightarrow> string \<Rightarrow> string \<Rightarrow> json option \<times> event list" where
  "fetchDidDocument P didBaseUrl' sub =
     (if didBaseUrl' \<noteq> [] \<and> take 1 sub = ''5'' then
        (case fetch P (didBaseUrl' @ sub) of
           Inl m \<Rightarrow> (None, [Fetch (didBaseUrl' @ sub), ConsoleWarn m])
         | Inr (ok, body) \<Rightarrow>
             if ok then
               (case body of
                  Inl m \<Rightarrow> (None, [Fetch (didBaseUrl' @ sub), ConsoleWarn m])
                | Inr doc \<Rightarrow> (Some doc, [Fetch (didBaseUrl' @ sub)]))
             else (None, [Fetch (didBaseUrl' @ sub)]))
      else (None, []))"

text \<open>
  The body of the \<open>try\<close> block of \<open>verifyToken\<close>, steps 1 to 8: what it throws or returns,
  and the outside calls it made. \<open>payload.iss\<close> is read after \<open>payload.sub\<close> was, so the
  read itself cannot throw and reading it before the test of the allow-list changes
  nothing.
\<close>

definition verifyToken_try ::
  "platform \<Rightarrow> int \<Rightarrow> string \<Rightarrow> string \<Rightarrow> string list \<Rightarrow> real option
     \<Rightarrow> (js_error + json \<times> json option) \<times> event list" where
  "verifyToken_try P dateNow token didBaseUrl' allowedIssuers' maxTokenAge' =
     (case splitJWT P token of
        Inl e \<Rightarrow> (Inl e, [])
      | Inr (header, payload, signatureBytes) \<Rightarrow>
     (case js_get payload ''sub'' of
        Inl e \<Rightarrow> (Inl e, [])
      | Inr sub \<Rightarrow>
     if \<not> truthy sub \<or> \<not> typeof_string sub then (Inl NoValidSubject, [])
     else
     (case js_get header ''alg'' of
        Inl e \<Rightarrow> (Inl e, [])
      | Inr alg \<Rightarrow>
     if alg \<noteq> Some (JStr ''EdDSA'') then (Inl (UnsupportedAlgorithm alg), [])
     else
     (case js_get payload ''iss'' of
        Inl e \<Rightarrow> (Inl e, [])
      | Inr iss \<Rightarrow>
     if length allowedIssuers' > 0 \<and> truthy iss \<and> \<not> array_includes allowedIssuers' iss
     then (Inl (InvalidIssuer iss), [])
     else
     (case validateTokenTimes dateNow payload maxTokenAge' of
        Inl e \<Rightarrow> (Inl e, [])
      | Inr u \<Rightarrow>
     (case ss58DecodePublicKey (str_value sub) of
        Inl e \<Rightarrow> (Inl e, [])
      | Inr publicKeyBytes \<Rightarrow>
     (let parts = take 2 (split_on (CHR ''.'') token);
          signingInput = parts ! 0 @ ''.'' @ parts ! 1;
          signingInputBytes = buffer_from_utf8 P signingInput;
          call = Ed25519Verify signatureBytes signingInputBytes publicKeyBytes
      in case ed25519_verify P signatureBytes signingInputBytes publicKeyBytes of
           Inl m \<Rightarrow> (Inl (LibraryError m), [call])
         | Inr isValid \<Rightarrow>
             if \<not> isValid then (Inl InvalidSignature, [call])
             else
               (case fetchDidDocument P didBaseUrl' (str_value sub) of
                  (doc, calls) \<Rightarrow> (Inr (payload, doc), call # calls)))))))))"

text \<open>
  \<open>verifyToken(token, options)\<close>: the defaults of the options, the \<open>try\<close> block, and the
  \<open>catch\<close> that turns whatever was thrown into a failed result. The second component
  lists the outside calls. \<open>dateNow\<close> is the clock reading of \<open>validateTokenTimes\<close>.
\<close>

definition verifyToken ::
  "platform \<Rightarrow> int \<Rightarrow> string \<Rightarrow> TokenVerifierOptions \<Rightarrow> VerifyTokenResult \<times> event list" where
  "verifyToken P dateNow token options =
     (let didBaseUrl' = (case didBaseUrl options of
                           None \<Rightarrow> ''https://api.sensespace.xyz/api/did/''
                         | Some u \<Rightarrow> u);
          allowedIssuers' = (case allowedIssuers options of
                               None \<Rightarrow> [''sensespace'']
                             | Some l \<Rightarrow> l);
          maxTokenAge' = maxTokenAge options
      in case verifyToken_try P dateNow token didBaseUrl' allowedIssuers' maxTokenAge' of
           (Inr (payload, doc), calls) \<Rightarrow>
             (\<lparr>success = True, error = None, claims = Some payload, didDocument = doc\<rparr>,
              calls)
         | (Inl e, calls) \<Rightarrow>
             (\<lparr>success = False, error = Some (error_message P e), claims = None,
               didDocument = None\<rparr>, calls))"

section \<open>core.ts: issuance\<close>

record GenerateTokenOptions =
  privateKey :: "string + bytes"
  subject :: "string option"
  issuer :: "string option"
  expiresIn :: "real option"
  additionalClaims :: "(string \<times> json) list option"

text \<open>
  Node's \<open>Buffer.from(s, 'hex')\<close>, which the program calls and does not define. It does not
  throw on a malformed string: it decodes pairs of hexadecimal digits and stops at the
  first pair that is not one, and a single trailing digit is dropped ("data truncation
  may occur when decoding strings that do not exclusively consist of an even number of
  hexadecimal characters"). The result is a sum so that the \<open>try\<close> around the call keeps
  its \<open>catch\<close> in the model; \<open>Inl\<close> is never returned.
\<close>

definition hex_value :: "char \<Rightarrow> nat option" where
  "hex_value c =
     (let n = (of_char c :: nat)
      in if 48 \<le> n \<and> n \<le> 57 then Some (n - 48)
         else if 97 \<le> n \<and> n \<le> 102 then Some (n - 87)
         else if 65 \<le> n \<and> n \<le> 70 then Some (n - 55)
         else None)"

fun hex_decode :: "string \<Rightarrow> bytes" where
  "hex_decode (a # b # rest) =
     (case hex_value a of
        None \<Rightarrow> []
      | Some x \<Rightarrow>
          (case hex_value b of
             None \<Rightarrow> []
           | Some y \<Rightarrow> of_nat (16 * x + y) # hex_decode rest))"
| "hex_decode rest = []"

definition buffer_from_hex :: "string \<Rightarrow> string + bytes" where
  "buffer_from_hex s = Inr (hex_decode s)"

text \<open>
  The variable \<open>privateKeyBytes\<close>: a \<open>Uint8Array\<close> is taken as it is; a string is decoded
  as hex inside a \<open>try\<close> whose \<open>catch\<close> decodes it as base64.
\<close>

definition privateKeyBytes :: "platform \<Rightarrow> string + bytes \<Rightarrow> js_error + bytes" where
  "privateKeyBytes P key =
     (case key of
        Inl s \<Rightarrow>
          (case buffer_from_hex s of
             Inr b \<Rightarrow> Inr b
           | Inl m \<Rightarrow>
               (case buffer_from_base64 P s of
                  Inr b \<Rightarrow> Inr b
                | Inl m' \<Rightarrow> Inl PrivateKeyNotHexOrBase64))
      | Inr b \<Rightarrow> Inr b)"

text \<open>
  The object \<open>payload\<close> of \<open>generateToken\<close>, from the validated key bytes: the five fixed
  fields, then the spread of \<open>additionalClaims\<close>. \<open>subject || ss58Address\<close> takes the
  address when the subject is \<open>undefined\<close> or the empty string.
\<close>

definition generateToken_payload ::
  "platform \<Rightarrow> int \<Rightarrow> GenerateTokenOptions \<Rightarrow> bytes \<Rightarrow> (string \<times> json) list" where
  "generateToken_payload P dateNow options keyBytes =
     (let issuer' = (case issuer options of None \<Rightarrow> ''sensespace'' | Some i \<Rightarrow> i);
          expiresIn' = (case expiresIn options of None \<Rightarrow> 30 * 24 * 60 * 60 | Some x \<Rightarrow> x);
          additionalClaims' = (case additionalClaims options of None \<Rightarrow> [] | Some c \<Rightarrow> c);
          publicKey = ed25519_getPublicKey P keyBytes;
          ss58Address = generateSS58Address P publicKey 42;
          now = of_int (dateNow div 1000)
      in obj_spread
           [(''iat'', JNum now),
            (''exp'', JNum (now + expiresIn')),
            (''nbf'', JNum now),
            (''iss'', JStr issuer'),
            (''sub'', JStr (case subject options of
                              None \<Rightarrow> ss58Address
                            | Some s \<Rightarrow> if s \<noteq> [] then s else ss58Address))]
           additionalClaims')"

definition generateToken :: "platform \<Rightarrow> int \<Rightarrow> GenerateTokenOptions \<Rightarrow> js_error + string" where
  "generateToken P dateNow options =
     (case privateKeyBytes P (privateKey options) of
        Inl e \<Rightarrow> Inl e
      | Inr keyBytes \<Rightarrow>
          if length keyBytes \<noteq> 32 then Inl (InvalidPrivateKeyLength (length keyBytes))
          else
            let payload = generateToken_payload P dateNow options keyBytes;
                header = JObj [(''alg'', JStr ''EdDSA''), (''typ'', JStr ''JWT'')];
                encodedHeader = b64urlEncode P (buffer_from_utf8 P (json_stringify P header));
                encodedPayload =
                  b64urlEncode P (buffer_from_utf8 P (json_stringify P (JObj payload)));
                signingInput = encodedHeader @ ''.'' @ encodedPayload;
                signingInputBytes = buffer_from_utf8 P signingInput;
                signature = ed25519_sign P signingInputBytes keyBytes;
                encodedSignature = b64urlEncode P signature
            in Inr (signingInput @ ''.'' @ encodedSignature))"

section \<open>A stand-in platform\<close>

text \<open>
  One concrete platform, for instantiating the theorems: the transport encodings copy
  ASCII codes (base64url drops the padding), the hash is constant, the parser knows five
  documents, every signature verifies and the network is down. \<open>demo_address\<close> is the
  address of the key of 32 bytes \<open>0x07\<close> under that hash.
\<close>

definition demo_address :: string where
  "demo_address = bs58_encode ([42] @ replicate 32 7 @ [0, 0])"

definition ascii_bytes :: "string \<Rightarrow> bytes" where
  "ascii_bytes s = map (\<lambda>c. of_nat (of_char c)) s"

definition ascii_string :: "bytes \<Rightarrow> string" where
  "ascii_string bs = map (\<lambda>b. char_of (unat b)) bs"

definition demo_platform :: platform where
  "demo_platform =
     \<lparr>blake2b = (\<lambda>n m. replicate n 0),
      buffer_from_base64url = (\<lambda>s. ascii_bytes (filter (\<lambda>c. c \<noteq> CHR ''='') s)),
      buffer_to_base64url = ascii_string,
      buffer_from_utf8 = ascii_bytes,
      buffer_to_utf8 = ascii_string,
      buffer_from_base64 = (\<lambda>s. Inr (ascii_bytes s)),
      json_parse =
        (\<lambda>s. if s = ''H'' then Inr (JObj [(''alg'', JStr ''HS256'')])
             else if s = ''E'' then Inr (JObj [(''alg'', JStr ''EdDSA'')])
             else if s = ''P'' then Inr (JObj [])
             else if s = ''S'' then Inr (JObj [(''sub'', JStr demo_address)])
             else if s = ''N'' then Inr JNull
             else Inl ''Unexpected token''),
      json_stringify = (\<lambda>v. ''{}''),
      js_String = str_value,
      ed25519_getPublicKey = (\<lambda>k. k),
      ed25519_sign = (\<lambda>m k. replicate 64 0),
      ed25519_verify = (\<lambda>sg m k. Inr True),
      fetch = (\<lambda>u. Inl ''fetch failed'')\<rparr>"

section \<open>Base-58 round trip\<close>

lemma be_val_snoc: "be_val b (ds @ [d]) = be_val b ds * b + d"
  by (simp add: be_val_def)

lemma be_val_Nil: "be_val b [] = 0"
  by (simp add: be_val_def)

lemma to_digits_zero: "to_digits b 0 = []"
  by (simp add: to_digits.simps)

lemma to_digits_step:
  "2 \<le> b \<Longrightarrow> 0 < n \<Longrightarrow> to_digits b n = to_digits b (n div b) @ [n mod b]"
  by (subst to_digits.simps) simp

lemma be_val_to_digits: "2 \<le> b \<Longrightarrow> be_val b (to_digits b n) = n"
proof (induction b n rule: to_digits.induct)
  case (1 b n)
  show ?case
  proof (cases "n = 0")
    case True
    then show ?thesis by (simp add: to_digits_zero be_val_Nil)
  next
    case False
    with 1 have "be_val b (to_digits b (n div b)) = n div b" by simp
    with False 1(2) show ?thesis
      by (simp add: to_digits_step be_val_snoc)
  qed
qed

lemma to_digits_bound: "2 \<le> b \<Longrightarrow> d \<in> set (to_digits b n) \<Longrightarrow> d < b"
proof (induction b n rule: to_digits.induct)
  case (1 b n)
  show ?case
  proof (cases "n = 0")
    case True
    with 1(3) show ?thesis by (simp add: to_digits_zero)
  next
    case False
    with 1 show ?thesis
      by (auto simp: to_digits_step)
  qed
qed

lemma to_digits_hd:
  "2 \<le> b \<Longrightarrow> 0 < n \<Longrightarrow> to_digits b n \<noteq> [] \<and> hd (to_digits b n) \<noteq> 0"
proof (induction b n rule: to_digits.induct)
  case (1 b n)
  show ?case
  proof (cases "n div b = 0")
    case True
    with 1(2,3) have "n mod b = n" by (simp add: div_eq_0_iff)
    with True 1(2,3) show ?thesis
      by (simp add: to_digits_step to_digits_zero)
  next
    case False
    with 1 have "to_digits b (n div b) \<noteq> [] \<and> hd (to_digits b (n div b)) \<noteq> 0"
      by simp
    with 1(2,3) show ?thesis
      by (simp add: to_digits_step)
  qed
qed

lemma be_val_pos:
  "ds \<noteq> [] \<Longrightarrow> hd ds \<noteq> 0 \<Longrightarrow> 0 < b \<Longrightarrow> 0 < be_val b ds"
proof (induction ds rule: rev_induct)
  case Nil
  then show ?case by simp
next
  case (snoc d ds)
  show ?case
  proof (cases "ds = []")
    case True
    with snoc.prems show ?thesis by (simp add: be_val_def)
  next
    case False
    with snoc have "0 < be_val b ds" by simp
    with snoc.prems(3) show ?thesis by (simp add: be_val_snoc)
  qed
qed

lemma to_digits_be_val:
  "2 \<le> b \<Longrightarrow> \<forall>d\<in>set ds. d < b \<Longrightarrow> ds = [] \<or> hd ds \<noteq> 0 \<Longrightarrow>
   to_digits b (be_val b ds) = ds"
proof (induction ds rule: rev_induct)
  case Nil
  then show ?case by (simp add: be_val_Nil to_digits_zero)
next
  case (snoc d ds)
  have d: "d < b" using snoc.prems(2) by simp
  show ?case
  proof (cases "ds = []")
    case True
    with snoc.prems(3) have "0 < d" by simp
    with True d snoc.prems(1) show ?thesis
      by (simp add: be_val_def to_digits_step to_digits_zero)
  next
    case False
    with snoc.prems(3) have hd: "hd ds \<noteq> 0" by simp
    with False snoc.prems(1) have pos: "0 < be_val b ds"
      by (simp add: be_val_pos)
    from snoc False hd have IH: "to_digits b (be_val b ds) = ds" by simp
    have "0 < be_val b ds * b + d" using pos snoc.prems(1) by simp
    moreover have "(be_val b ds * b + d) div b = be_val b ds" using d by simp
    moreover have "(be_val b ds * b + d) mod b = d" using d by simp
    ultimately show ?thesis
      using snoc.prems(1) IH by (simp add: be_val_snoc to_digits_step)
  qed
qed

lemma index_of_nth:
  "distinct xs \<Longrightarrow> d < length xs \<Longrightarrow> index_of (xs ! d) xs = Some d"
proof (induction xs arbitrary: d)
  case Nil
  then show ?case by simp
next
  case (Cons x xs)
  show ?case
  proof (cases d)
    case 0
    then show ?thesis by simp
  next
    case (Suc k)
    with Cons.prems have "xs ! k \<noteq> x" by auto
    with Suc Cons show ?thesis by simp
  qed
qed

lemma ALPHABET_distinct: "distinct ALPHABET"
  by (simp add: ALPHABET_def)

lemma ALPHABET_length: "length ALPHABET = 58"
  by (simp add: ALPHABET_def)

lemma ALPHABET_leader: "d < 58 \<Longrightarrow> (ALPHABET ! d = CHR ''1'') = (d = 0)"
proof -
  assume d: "d < 58"
  have "ALPHABET ! 0 = CHR ''1''" by (simp add: ALPHABET_def)
  then have "(ALPHABET ! d = CHR ''1'') = (ALPHABET ! d = ALPHABET ! 0)" by simp
  also have "\<dots> = (d = 0)"
    using d ALPHABET_distinct by (simp add: nth_eq_iff_index_eq ALPHABET_length)
  finally show ?thesis .
qed

lemma all_some_map_Some: "all_some (map Some xs) = Some xs"
  by (induction xs) simp_all

lemma index_of_ALPHABET_digits:
  assumes "\<forall>d\<in>set ds. d < 58"
  shows "all_some (map (\<lambda>c. index_of c ALPHABET) (map (\<lambda>d. ALPHABET ! d) ds)) = Some ds"
  using assms
  by (induction ds) (simp_all add: index_of_nth ALPHABET_distinct ALPHABET_length)

lemma takeWhile_replicate_append:
  "ys = [] \<or> \<not> P (hd ys) \<Longrightarrow> P x \<Longrightarrow>
   takeWhile P (replicate n x @ ys) = replicate n x \<and> dropWhile P (replicate n x @ ys) = ys"
  by (induction n) (cases ys; simp)+

lemma dropWhile_hd: "dropWhile P xs = [] \<or> \<not> P (hd (dropWhile P xs))"
  by (induction xs) auto

lemma replicate_takeWhile_zero:
  "replicate (length (takeWhile (\<lambda>x. x = z) xs)) z = takeWhile (\<lambda>x. x = z) xs"
  by (induction xs) auto

lemma bs58_roundtrip: "bs58_decode (bs58_encode source) = Inr source"
proof -
  define tl where "tl = dropWhile (\<lambda>x. x = 0) source"
  define zeroes where "zeroes = length (takeWhile (\<lambda>x. x = 0) source)"
  define us where "us = map unat tl"
  define n where "n = be_val 256 us"
  define ds where "ds = to_digits 58 n"
  define cs where "cs = map (\<lambda>d. ALPHABET ! d) ds"
  have enc: "bs58_encode source = replicate zeroes (CHR ''1'') @ cs"
    by (simp add: bs58_encode_def Let_def zeroes_def cs_def ds_def n_def us_def tl_def)
  have ds_bound: "\<forall>d\<in>set ds. d < 58"
    using to_digits_bound [of 58 _ n] by (auto simp: ds_def)
  have us_bound: "\<forall>u\<in>set us. u < 256"
  proof
    fix u assume "u \<in> set us"
    then obtain w :: byte where "u = unat w" by (auto simp: us_def)
    then show "u < 256" using unsigned_less [of w] by simp
  qed
  have tl_hd: "tl = [] \<or> hd tl \<noteq> 0"
    using dropWhile_hd [of "\<lambda>x. x = 0" source] by (simp add: tl_def)
  have us_hd: "us = [] \<or> hd us \<noteq> 0"
    using tl_hd by (cases tl) (auto simp: us_def unat_eq_0)
  have cs_hd: "cs = [] \<or> \<not> (hd cs = CHR ''1'')"
  proof (cases "n = 0")
    case True
    then show ?thesis by (simp add: cs_def ds_def to_digits_zero)
  next
    case False
    then have "ds \<noteq> [] \<and> hd ds \<noteq> 0"
      using to_digits_hd [of 58 n] by (simp add: ds_def)
    moreover from this ds_bound have "hd ds < 58" by (cases ds) auto
    ultimately show ?thesis
      by (cases ds) (auto simp: cs_def ALPHABET_leader)
  qed
  have split: "takeWhile (\<lambda>c. c = CHR ''1'') (replicate zeroes (CHR ''1'') @ cs)
                 = replicate zeroes (CHR ''1'')
             \<and> dropWhile (\<lambda>c. c = CHR ''1'') (replicate zeroes (CHR ''1'') @ cs) = cs"
    using cs_hd by (intro takeWhile_replicate_append) auto
  have idx: "all_some (map (\<lambda>c. index_of c ALPHABET) cs) = Some ds"
    unfolding cs_def using ds_bound by (rule index_of_ALPHABET_digits)
  have val: "be_val 58 ds = n"
    by (simp add: ds_def be_val_to_digits)
  have b256: "to_digits 256 n = us"
    unfolding n_def using us_bound us_hd by (intro to_digits_be_val) auto
  have bytes: "map of_nat us = tl"
    by (simp add: us_def comp_def)
  have whole: "replicate zeroes 0 @ tl = source"
    by (simp add: zeroes_def tl_def replicate_takeWhile_zero)
  show ?thesis
    by (simp add: bs58_decode_def enc split idx val b256 bytes whole)
qed

section \<open>The SS58 codec: round trip, length policy, unreachable branch\<close>

lemma slice_length_key:
  "35 \<le> length raw \<Longrightarrow>
   length (buf_slice (length raw - 34) (length raw - 34 + 32) raw) = 32"
  by (simp add: buf_slice_def)

lemma ss58_decode_short:
  "bs58_decode a = Inr raw \<Longrightarrow> length raw < 35 \<Longrightarrow>
   ss58DecodePublicKey a = Inl (SS58RawTooShort (length raw))"
  by (simp add: ss58DecodePublicKey_def)

lemma ss58_decode_long:
  assumes "bs58_decode a = Inr raw" and "35 \<le> length raw"
  shows "ss58DecodePublicKey a = Inr (buf_slice (length raw - 34) (length raw - 34 + 32) raw)"
proof -
  have pl: "(if length raw = 1 + 32 + 2 then 1
             else if length raw = 2 + 32 + 2 then 2
             else length raw - 32 - 2) = length raw - 34"
    using assms(2) by auto
  have len: "length (buf_slice (length raw - 34) (length raw - 34 + 32) raw) = 32"
    using assms(2) by (rule slice_length_key)
  have "ss58DecodePublicKey a =
          (let prefixLen = length raw - 34;
               pubkey = buf_slice prefixLen (prefixLen + 32) raw
           in if length pubkey \<noteq> 32 then Inl DecodedKeyNot32 else Inr pubkey)"
    unfolding ss58DecodePublicKey_def using assms by (simp only: pl sum.case) simp
  then show ?thesis using len by (simp add: Let_def)
qed

lemma ss58_decode_framed:
  assumes "length key = 32" and "length cs = 2" and "pre \<noteq> []"
  shows "ss58DecodePublicKey (bs58_encode (pre @ key @ cs)) = Inr key"
proof -
  let ?raw = "pre @ key @ cs"
  have long: "35 \<le> length ?raw" using assms by (cases pre) simp_all
  have "ss58DecodePublicKey (bs58_encode ?raw)
          = Inr (buf_slice (length ?raw - 34) (length ?raw - 34 + 32) ?raw)"
    using bs58_roundtrip long by (rule ss58_decode_long)
  also have "buf_slice (length ?raw - 34) (length ?raw - 34 + 32) ?raw = key"
    using assms by (simp add: buf_slice_def)
  finally show ?thesis .
qed

text \<open>
  Claim C1. For every 32-byte public key and every prefix, decoding the address that
  \<open>generateSS58Address\<close> produces returns exactly that key, and encoding the decoded key
  again with the same prefix gives the same address string. The hash is the platform's
  \<open>blake2b(64)\<close>, whose digest has 64 bytes.
\<close>

theorem ss58_address_roundtrip:
  assumes "length publicKey = 32"
    and "length (blake2b P 64 (word_of_int prefix # publicKey)) = 64"
  shows "ss58DecodePublicKey (generateSS58Address P publicKey prefix) = Inr publicKey
       \<and> (\<forall>k. ss58DecodePublicKey (generateSS58Address P publicKey prefix) = Inr k
              \<longrightarrow> generateSS58Address P k prefix = generateSS58Address P publicKey prefix)"
proof -
  let ?cs = "buf_slice 0 2 (blake2b P 64 (word_of_int prefix # publicKey))"
  have cs: "length ?cs = 2" using assms(2) by (simp add: buf_slice_def)
  have "generateSS58Address P publicKey prefix
          = bs58_encode ([word_of_int prefix] @ publicKey @ ?cs)"
    by (simp add: generateSS58Address_def Let_def)
  moreover have "ss58DecodePublicKey (bs58_encode ([word_of_int prefix] @ publicKey @ ?cs))
          = Inr publicKey"
    using assms(1) cs by (rule ss58_decode_framed) simp
  ultimately have dec: "ss58DecodePublicKey (generateSS58Address P publicKey prefix) = Inr publicKey"
    by simp
  then show ?thesis by auto
qed

text \<open>
  Claim C1 at the key of 32 bytes \<open>0x07\<close> with prefix 42 on the stand-in platform.
\<close>

theorem ss58_address_roundtrip_witness:
  "length (replicate 32 (7::byte)) = 32
   \<and> length (blake2b demo_platform 64 (word_of_int 42 # replicate 32 7)) = 64
   \<and> ss58DecodePublicKey (generateSS58Address demo_platform (replicate 32 7) 42)
       = Inr (replicate 32 7)"
proof -
  have k: "length (replicate 32 (7::byte)) = 32" by simp
  have h: "length (blake2b demo_platform 64 (word_of_int 42 # replicate 32 7)) = 64"
    by (simp add: demo_platform_def)
  from ss58_address_roundtrip [OF k h] k h show ?thesis by blast
qed

text \<open>
  Claim C2. When the address base-58-decodes to \<open>raw\<close>, \<open>ss58DecodePublicKey\<close> fails with the
  too-short error exactly when \<open>raw\<close> has fewer than 35 bytes; otherwise the prefix length
  is 1 for 35 bytes, 2 for 36 bytes and the raw length minus 34 in every other case, and
  the result is the 32-byte slice after the prefix. The two checksum bytes are never
  looked at: whatever they are, the key between prefix and checksum is returned.
\<close>

theorem ss58_decode_policy:
  assumes "bs58_decode ss58Addr = Inr raw"
  shows "((\<exists>n. ss58DecodePublicKey ss58Addr = Inl (SS58RawTooShort n)) \<longleftrightarrow> length raw < 35)
       \<and> (length raw < 35 \<longrightarrow> ss58DecodePublicKey ss58Addr = Inl (SS58RawTooShort (length raw)))
       \<and> (35 \<le> length raw \<longrightarrow>
            (let prefixLen = (if length raw = 35 then 1
                              else if length raw = 36 then 2
                              else length raw - 34)
             in ss58DecodePublicKey ss58Addr = Inr (buf_slice prefixLen (prefixLen + 32) raw)))
       \<and> (\<forall>pre key cs. raw = pre @ key @ cs \<and> pre \<noteq> [] \<and> length key = 32 \<and> length cs = 2
            \<longrightarrow> ss58DecodePublicKey ss58Addr = Inr key)"
proof (intro conjI)
  show "(\<exists>n. ss58DecodePublicKey ss58Addr = Inl (SS58RawTooShort n)) \<longleftrightarrow> length raw < 35"
  proof (cases "length raw < 35")
    case True
    with assms show ?thesis by (simp add: ss58_decode_short)
  next
    case False
    then have "35 \<le> length raw" by simp
    from ss58_decode_long [OF assms this] False show ?thesis by simp
  qed
  show "length raw < 35 \<longrightarrow> ss58DecodePublicKey ss58Addr = Inl (SS58RawTooShort (length raw))"
    using assms by (simp add: ss58_decode_short)
  show "35 \<le> length raw \<longrightarrow>
            (let prefixLen = (if length raw = 35 then 1
                              else if length raw = 36 then 2
                              else length raw - 34)
             in ss58DecodePublicKey ss58Addr = Inr (buf_slice prefixLen (prefixLen + 32) raw))"
  proof
    assume long: "35 \<le> length raw"
    have "(if length raw = 35 then 1 else if length raw = 36 then 2 else length raw - 34)
            = length raw - 34"
      by auto
    then show "let prefixLen = (if length raw = 35 then 1
                              else if length raw = 36 then 2
                              else length raw - 34)
             in ss58DecodePublicKey ss58Addr = Inr (buf_slice prefixLen (prefixLen + 32) raw)"
      using ss58_decode_long [OF assms long] by (simp add: Let_def)
  qed
  show "\<forall>pre key cs. raw = pre @ key @ cs \<and> pre \<noteq> [] \<and> length key = 32 \<and> length cs = 2
            \<longrightarrow> ss58DecodePublicKey ss58Addr = Inr key"
  proof (intro allI impI)
    fix pre key cs :: bytes
    assume h: "raw = pre @ key @ cs \<and> pre \<noteq> [] \<and> length key = 32 \<and> length cs = 2"
    then have "35 \<le> length raw" by (cases pre) auto
    from ss58_decode_long [OF assms this] h show "ss58DecodePublicKey ss58Addr = Inr key"
      by (simp add: buf_slice_def)
  qed
qed



text \<open>
  Claim C2 at an address whose checksum bytes \<open>0xAB 0xCD\<close> are not the hash of anything.
\<close>

theorem ss58_decode_policy_witness:
  "bs58_decode (bs58_encode ([42] @ replicate 32 7 @ [0xAB, 0xCD]))
     = Inr ([42] @ replicate 32 7 @ [0xAB, 0xCD])
   \<and> ss58DecodePublicKey (bs58_encode ([42] @ replicate 32 7 @ [0xAB, 0xCD]))
     = Inr (replicate 32 7)"
proof -
  define R :: bytes where "R = [42] @ replicate 32 7 @ [0xAB, 0xCD]"
  have d: "bs58_decode (bs58_encode R) = Inr R" by (rule bs58_roundtrip)
  have frame: "R = [42] @ replicate 32 7 @ [0xAB, 0xCD] \<and> [42::byte] \<noteq> []
      \<and> length (replicate 32 (7::byte)) = 32 \<and> length [0xAB, 0xCD :: byte] = 2"
    by (simp add: R_def)
  from ss58_decode_policy [OF d] frame
  have "ss58DecodePublicKey (bs58_encode R) = Inr (replicate 32 7)" by blast
  with d show ?thesis unfolding R_def by blast
qed

lemma bs58_decode_error:
  "bs58_decode a = Inl e \<Longrightarrow> e = LibraryError ''Non-base58 character''"
  by (auto simp: bs58_decode_def Let_def split: option.splits)

text \<open>
  Claim C10. The branch "Decoded public key is not 32 bytes" is never taken: once the raw
  length is at least 35 the slice at the inferred prefix offset has exactly 32 bytes, so
  an address that base-58-decodes either fails with the too-short error or yields a
  32-byte key.
\<close>

theorem ss58_key_length_error_unreachable:
  "ss58DecodePublicKey ss58Addr \<noteq> Inl DecodedKeyNot32
   \<and> (\<forall>raw. bs58_decode ss58Addr = Inr raw \<and> 35 \<le> length raw \<longrightarrow>
          (let prefixLen = (if length raw = 1 + 32 + 2 then 1
                            else if length raw = 2 + 32 + 2 then 2
                            else length raw - 32 - 2)
           in length (buf_slice prefixLen (prefixLen + 32) raw) = 32))
   \<and> (\<forall>raw. bs58_decode ss58Addr = Inr raw \<longrightarrow>
          (\<exists>n. ss58DecodePublicKey ss58Addr = Inl (SS58RawTooShort n))
          \<or> (\<exists>key. ss58DecodePublicKey ss58Addr = Inr key \<and> length key = 32))"
proof (intro conjI allI impI)
  show "ss58DecodePublicKey ss58Addr \<noteq> Inl DecodedKeyNot32"
  proof (cases "bs58_decode ss58Addr")
    case (Inl e)
    then have "ss58DecodePublicKey ss58Addr = Inl (LibraryError ''Non-base58 character'')"
      using bs58_decode_error [OF Inl] by (simp add: ss58DecodePublicKey_def)
    then show ?thesis by simp
  next
    case (Inr raw)
    show ?thesis
    proof (cases "length raw < 35")
      case True
      with Inr show ?thesis by (simp add: ss58_decode_short)
    next
      case False
      then have "35 \<le> length raw" by simp
      from ss58_decode_long [OF Inr this] show ?thesis by simp
    qed
  qed
next
  fix raw :: bytes
  assume h: "bs58_decode ss58Addr = Inr raw \<and> 35 \<le> length raw"
  then have pl: "(if length raw = 1 + 32 + 2 then 1
                  else if length raw = 2 + 32 + 2 then 2
                  else length raw - 32 - 2) = length raw - 34"
    by auto
  from h have "35 \<le> length raw" by blast
  then have "length (buf_slice (length raw - 34) (length raw - 34 + 32) raw) = 32"
    by (rule slice_length_key)
  then show "let prefixLen = (if length raw = 1 + 32 + 2 then 1
                            else if length raw = 2 + 32 + 2 then 2
                            else length raw - 32 - 2)
           in length (buf_slice prefixLen (prefixLen + 32) raw) = 32"
    unfolding Let_def pl .
next
  fix raw :: bytes
  assume d: "bs58_decode ss58Addr = Inr raw"
  show "(\<exists>n. ss58DecodePublicKey ss58Addr = Inl (SS58RawTooShort n))
          \<or> (\<exists>key. ss58DecodePublicKey ss58Addr = Inr key \<and> length key = 32)"
  proof (cases "length raw < 35")
    case True
    with d show ?thesis by (simp add: ss58_decode_short)
  next
    case False
    then have long: "35 \<le> length raw" by simp
    from ss58_decode_long [OF d long] slice_length_key [OF long] show ?thesis by simp
  qed
qed

text \<open>
  Claim C10 at a raw address of 35 bytes.
\<close>

theorem ss58_key_length_error_unreachable_witness:
  "bs58_decode (bs58_encode (replicate 35 9)) = Inr (replicate 35 9)
   \<and> 35 \<le> length (replicate 35 (9::byte))
   \<and> length (buf_slice 1 (1 + 32) (replicate 35 (9::byte))) = 32
   \<and> ss58DecodePublicKey (bs58_encode (replicate 35 9)) \<noteq> Inl DecodedKeyNot32"
proof -
  define R :: bytes where "R = replicate 35 9"
  have d: "bs58_decode (bs58_encode R) = Inr R" by (rule bs58_roundtrip)
  have l: "35 \<le> length R" by (simp add: R_def)
  have l35: "length R = 35" by (simp add: R_def)
  from ss58_key_length_error_unreachable [of "bs58_encode R"] d l
  have "(let prefixLen = (if length R = 1 + 32 + 2 then 1
                            else if length R = 2 + 32 + 2 then 2
                            else length R - 32 - 2)
           in length (buf_slice prefixLen (prefixLen + 32) R) = 32)"
    by blast
  then have s: "length (buf_slice 1 (1 + 32) R) = 32" by (simp add: l35)
  from ss58_key_length_error_unreachable [of "bs58_encode R"]
  have "ss58DecodePublicKey (bs58_encode R) \<noteq> Inl DecodedKeyNot32" by blast
  with d l s show ?thesis unfolding R_def by blast
qed

section \<open>Time claims\<close>

lemma js_get_Inl: "js_get v k = Inl e \<Longrightarrow> e = TypeErrorNull k"
  by (cases v) auto


text \<open>
  Claim C3 as stated fails at \<open>exp = 0\<close>: the claim is present and numeric and
  \<open>now = 5 \<ge> exp\<close>, yet the guard \<open>payload.exp && ...\<close> skips the check and the call
  does not fail with Expired.
\<close>

theorem validateTokenTimes_exp_zero_counterexample:
  "js_get (JObj [(''exp'', JNum 0)]) ''exp'' = Inr (Some (JNum 0))
   \<and> (0::real) \<le> of_int (5000 div 1000)
   \<and> validateTokenTimes 5000 (JObj [(''exp'', JNum 0)]) None \<noteq> Inl TokenExpired"
  by (simp add: validateTokenTimes_def)

text \<open>
  Claim C3, amended. When \<open>exp\<close> is present, numeric and not zero, \<open>validateTokenTimes\<close>
  fails with Expired whenever \<open>now \<ge> exp\<close>, where \<open>now\<close> is the clock reading in whole
  seconds; and whenever \<open>now < exp\<close> (so also at \<open>exp = now + 1\<close>) the call does not fail
  with Expired.
\<close>

theorem validateTokenTimes_expiry:
  assumes "js_get payload ''exp'' = Inr (Some (JNum e))"
  shows "(e \<noteq> 0 \<and> e \<le> of_int (dateNow div 1000)
            \<longrightarrow> validateTokenTimes dateNow payload maxAge = Inl TokenExpired)
       \<and> (of_int (dateNow div 1000) < e
            \<longrightarrow> validateTokenTimes dateNow payload maxAge \<noteq> Inl TokenExpired)"
  using assms
  by (auto simp: validateTokenTimes_def Let_def split: sum.splits option.splits
           dest: js_get_Inl)

text \<open>
  Claim C3, amended, at \<open>exp = 100\<close>: Expired at \<open>now = 100\<close>, not Expired at \<open>now = 99\<close>.
\<close>

theorem validateTokenTimes_expiry_witness:
  "js_get (JObj [(''exp'', JNum 100)]) ''exp'' = Inr (Some (JNum 100))
   \<and> validateTokenTimes 100000 (JObj [(''exp'', JNum 100)]) None = Inl TokenExpired
   \<and> validateTokenTimes 99000 (JObj [(''exp'', JNum 100)]) None \<noteq> Inl TokenExpired"
proof -
  have g: "js_get (JObj [(''exp'', JNum 100)]) ''exp'' = Inr (Some (JNum 100))" by simp
  have a: "(100::real) \<noteq> 0 \<and> (100::real) \<le> of_int (100000 div 1000)" by simp
  have b: "of_int (99000 div 1000) < (100::real)" by simp
  from validateTokenTimes_expiry [OF g, of 100000 None] a
  have 1: "validateTokenTimes 100000 (JObj [(''exp'', JNum 100)]) None = Inl TokenExpired"
    by blast
  from validateTokenTimes_expiry [OF g, of 99000 None] b
  have 2: "validateTokenTimes 99000 (JObj [(''exp'', JNum 100)]) None \<noteq> Inl TokenExpired"
    by blast
  from g 1 2 show ?thesis by blast
qed

text \<open>
  Claim C4 as stated fails: \<open>validateTokenTimes\<close> has no \<open>now\<close> parameter and reads the
  system clock, so two calls with the same claims object and the same \<open>maxAge\<close> differ
  when the clock has moved past \<open>exp\<close> in between.
\<close>

theorem validateTokenTimes_clock_counterexample:
  "validateTokenTimes 50000 (JObj [(''exp'', JNum 100)]) None
     \<noteq> validateTokenTimes 200000 (JObj [(''exp'', JNum 100)]) None"
  by (simp add: validateTokenTimes_def)

text \<open>
  Claim C4, amended. The verdict is a function of the claims object, \<open>maxAge\<close> and the
  clock reading, and depends on the reading only through \<open>Math.floor(Date.now() / 1000)\<close>:
  two calls with identical arguments made within the same clock second give the same
  outcome.
\<close>

theorem validateTokenTimes_same_second:
  assumes "dateNow div 1000 = dateNow' div 1000"
  shows "validateTokenTimes dateNow payload maxAge = validateTokenTimes dateNow' payload maxAge"
  using assms by (simp add: validateTokenTimes_def)

text \<open>
  Claim C4, amended, at the clock readings 5000 ms and 5999 ms.
\<close>

theorem validateTokenTimes_same_second_witness:
  "(5000::int) div 1000 = 5999 div 1000
   \<and> validateTokenTimes 5000 (JObj [(''exp'', JNum 6)]) (Some 60)
       = validateTokenTimes 5999 (JObj [(''exp'', JNum 6)]) (Some 60)"
proof -
  have h: "(5000::int) div 1000 = 5999 div 1000" by simp
  from validateTokenTimes_same_second [OF h] h show ?thesis by blast
qed

text \<open>
  Claim C9. A time claim equal to 0 disables its own check: with \<open>exp = 0\<close> the call never
  fails with Expired, with \<open>nbf = 0\<close> never with NotYetValid, with \<open>iat = 0\<close> never with
  TooOld, and with \<open>maxAge = 0\<close> no claims object fails with TooOld.
\<close>

theorem validateTokenTimes_zero_disables:
  "(js_get payload ''exp'' = Inr (Some (JNum 0))
      \<longrightarrow> validateTokenTimes dateNow payload maxAge \<noteq> Inl TokenExpired)
   \<and> (js_get payload ''nbf'' = Inr (Some (JNum 0))
      \<longrightarrow> validateTokenTimes dateNow payload maxAge \<noteq> Inl TokenNotYetValid)
   \<and> (js_get payload ''iat'' = Inr (Some (JNum 0))
      \<longrightarrow> validateTokenTimes dateNow payload maxAge \<noteq> Inl TokenTooOld)
   \<and> validateTokenTimes dateNow payload (Some 0) \<noteq> Inl TokenTooOld"
  by (auto simp: validateTokenTimes_def Let_def split: sum.splits option.splits if_splits
           dest: js_get_Inl)

text \<open>
  Claim C9 at a claims object whose three time claims are 0, before and after the epoch,
  and at \<open>maxAge = 0\<close> with \<open>iat = 1\<close>.
\<close>

theorem validateTokenTimes_zero_disables_witness:
  "js_get (JObj [(''exp'', JNum 0), (''nbf'', JNum 0), (''iat'', JNum 0)]) ''exp''
     = Inr (Some (JNum 0))
   \<and> validateTokenTimes (- 5000) (JObj [(''exp'', JNum 0), (''nbf'', JNum 0), (''iat'', JNum 0)])
        (Some 1) \<noteq> Inl TokenExpired
   \<and> validateTokenTimes (- 5000) (JObj [(''exp'', JNum 0), (''nbf'', JNum 0), (''iat'', JNum 0)])
        (Some 1) \<noteq> Inl TokenNotYetValid
   \<and> validateTokenTimes 5000 (JObj [(''exp'', JNum 0), (''nbf'', JNum 0), (''iat'', JNum 0)])
        (Some 1) \<noteq> Inl TokenTooOld
   \<and> validateTokenTimes 5000 (JObj [(''iat'', JNum 1)]) (Some 0) \<noteq> Inl TokenTooOld"
proof -
  define p where "p = JObj [(''exp'', JNum 0), (''nbf'', JNum 0), (''iat'', JNum 0)]"
  have e: "js_get p ''exp'' = Inr (Some (JNum 0))" by (simp add: p_def)
  have n: "js_get p ''nbf'' = Inr (Some (JNum 0))" by (simp add: p_def)
  have i: "js_get p ''iat'' = Inr (Some (JNum 0))" by (simp add: p_def)
  from validateTokenTimes_zero_disables [of p "- 5000" "Some 1"] e
  have 1: "validateTokenTimes (- 5000) p (Some 1) \<noteq> Inl TokenExpired" by blast
  from validateTokenTimes_zero_disables [of p "- 5000" "Some 1"] n
  have 2: "validateTokenTimes (- 5000) p (Some 1) \<noteq> Inl TokenNotYetValid" by blast
  from validateTokenTimes_zero_disables [of p 5000 "Some 1"] i
  have 3: "validateTokenTimes 5000 p (Some 1) \<noteq> Inl TokenTooOld" by blast
  from validateTokenTimes_zero_disables [of "JObj [(''iat'', JNum 1)]" 5000]
  have 4: "validateTokenTimes 5000 (JObj [(''iat'', JNum 1)]) (Some 0) \<noteq> Inl TokenTooOld"
    by blast
  from e 1 2 3 4 show ?thesis unfolding p_def by blast
qed

section \<open>Verification: the algorithm gate and the result\<close>

lemma ascii_string_bytes: "ascii_string (ascii_bytes s) = s"
proof -
  have "char_of (unat (of_nat (of_char c :: nat) :: byte)) = c" for c :: char
  proof -
    have "(of_char c :: nat) < 256" by simp
    then have "unat (of_nat (of_char c :: nat) :: byte) = of_char c"
      by (simp add: unat_of_nat)
    then show ?thesis by simp
  qed
  then show ?thesis by (simp add: ascii_string_def ascii_bytes_def comp_def)
qed

lemma demo_segment:
  "CHR ''='' \<notin> set seg \<Longrightarrow>
   buffer_to_utf8 demo_platform (b64urlDecode demo_platform seg) = seg"
  by (auto simp: b64urlDecode_def demo_platform_def Let_def ascii_string_bytes filter_id_conv)

lemma demo_json_parse:
  "json_parse demo_platform s =
     (if s = ''H'' then Inr (JObj [(''alg'', JStr ''HS256'')])
      else if s = ''E'' then Inr (JObj [(''alg'', JStr ''EdDSA'')])
      else if s = ''P'' then Inr (JObj [])
      else if s = ''S'' then Inr (JObj [(''sub'', JStr demo_address)])
      else if s = ''N'' then Inr JNull
      else Inl ''Unexpected token'')"
  by (simp add: demo_platform_def)

lemma demo_signature_segment: "b64urlDecode demo_platform ''s'' = ascii_bytes ''s''"
  by (simp add: b64urlDecode_def demo_platform_def Let_def)




lemma verifyToken_of_failure:
  "verifyToken_try P dateNow token
     (case didBaseUrl options of None \<Rightarrow> ''https://api.sensespace.xyz/api/did/'' | Some u \<Rightarrow> u)
     (case allowedIssuers options of None \<Rightarrow> [''sensespace''] | Some l \<Rightarrow> l)
     (maxTokenAge options) = (Inl e, calls) \<Longrightarrow>
   verifyToken P dateNow token options =
     (\<lparr>success = False, error = Some (error_message P e), claims = None,
       didDocument = None\<rparr>, calls)"
  by (simp add: verifyToken_def)

lemma verifyToken_of_success:
  "verifyToken_try P dateNow token
     (case didBaseUrl options of None \<Rightarrow> ''https://api.sensespace.xyz/api/did/'' | Some u \<Rightarrow> u)
     (case allowedIssuers options of None \<Rightarrow> [''sensespace''] | Some l \<Rightarrow> l)
     (maxTokenAge options) = (Inr (payload, doc), calls) \<Longrightarrow>
   verifyToken P dateNow token options =
     (\<lparr>success = True, error = None, claims = Some payload, didDocument = doc\<rparr>, calls)"
  by (simp add: verifyToken_def)



lemma bs58_decode_Nil: "bs58_decode [] = Inr []"
  by (simp add: bs58_decode_def be_val_Nil to_digits_zero)

lemma bs58_encode_nonempty: "bs \<noteq> [] \<Longrightarrow> bs58_encode bs \<noteq> []"
proof
  assume ne: "bs \<noteq> []" and "bs58_encode bs = []"
  then have "bs58_decode (bs58_encode bs) = Inr []" by (simp add: bs58_decode_Nil)
  then have "bs = []" by (simp add: bs58_roundtrip)
  with ne show False by simp
qed

lemma demo_address_nonempty: "demo_address \<noteq> []"
  unfolding demo_address_def by (rule bs58_encode_nonempty) simp

lemma demo_address_decodes: "ss58DecodePublicKey demo_address = Inr (replicate 32 7)"
  unfolding demo_address_def by (rule ss58_decode_framed) simp_all



lemma demo_splitJWT_ESs:
  "splitJWT demo_platform ''E.S.s''
     = Inr (JObj [(''alg'', JStr ''EdDSA'')], JObj [(''sub'', JStr demo_address)],
            ascii_bytes ''s'')"
  by (simp add: splitJWT_def demo_segment demo_json_parse demo_signature_segment Let_def)

lemma demo_splitJWT_x: "splitJWT demo_platform ''x'' = Inl InvalidJWTFormat"
  by (simp add: splitJWT_def)

lemma demo_fetch: "fst (fetchDidDocument demo_platform url sub) = None"
  by (simp add: fetchDidDocument_def demo_platform_def)

lemma demo_verify_ESs:
  "\<exists>calls. verifyToken_try demo_platform 0 ''E.S.s'' url [''sensespace''] None
     = (Inr (JObj [(''sub'', JStr demo_address)], None), calls)"
proof -
  obtain doc calls where f: "fetchDidDocument demo_platform url demo_address = (doc, calls)"
    by (cases "fetchDidDocument demo_platform url demo_address")
  with demo_fetch [of url demo_address] have doc: "doc = None" by simp
  have v: "ed25519_verify demo_platform sg m k = Inr True" for sg m k
    by (simp add: demo_platform_def)
  have t: "validateTokenTimes 0 (JObj [(''sub'', JStr demo_address)]) None = Inr ()"
    by (simp add: validateTokenTimes_def)
  show ?thesis
    by (simp add: verifyToken_try_def demo_splitJWT_ESs demo_address_nonempty
                  demo_address_decodes t v f doc Let_def)
qed




lemma verifyToken_try_returns_payload:
  assumes "verifyToken_try P dateNow token url issuers age = (Inr (payload, doc), calls)"
  shows "\<exists>header sg. splitJWT P token = Inr (header, payload, sg)"
proof (cases "splitJWT P token")
  case (Inl e)
  with assms show ?thesis by (simp add: verifyToken_try_def)
next
  case (Inr t)
  obtain header payload' sg where t: "t = (header, payload', sg)" by (cases t)
  from assms Inr t have "payload' = payload"
    by (auto simp: verifyToken_try_def Let_def split: sum.splits if_splits prod.splits)
  with Inr t show ?thesis by simp
qed

text \<open>
  Claim C6. \<open>verifyToken\<close> returns a result for every token, clock reading, platform and
  configuration: either success with no error and with the claims, which are the payload
  the token was split into, or failure with a message and with neither claims nor
  document. Whatever is thrown inside the \<open>try\<close> block, by the program or by a library,
  ends in the second form.
\<close>

theorem verifyToken_never_throws:
  "(success (fst (verifyToken P dateNow token options))
      \<and> error (fst (verifyToken P dateNow token options)) = None
      \<and> (\<exists>payload. claims (fst (verifyToken P dateNow token options)) = Some payload
            \<and> (\<exists>header sg. splitJWT P token = Inr (header, payload, sg))))
   \<or> (\<not> success (fst (verifyToken P dateNow token options))
      \<and> (\<exists>message. error (fst (verifyToken P dateNow token options)) = Some message)
      \<and> claims (fst (verifyToken P dateNow token options)) = None
      \<and> didDocument (fst (verifyToken P dateNow token options)) = None)"
proof -
  let ?url = "case didBaseUrl options of
                None \<Rightarrow> ''https://api.sensespace.xyz/api/did/'' | Some u \<Rightarrow> u"
  let ?iss = "case allowedIssuers options of None \<Rightarrow> [''sensespace''] | Some l \<Rightarrow> l"
  obtain res calls
    where r: "verifyToken_try P dateNow token ?url ?iss (maxTokenAge options) = (res, calls)"
    by (cases "verifyToken_try P dateNow token ?url ?iss (maxTokenAge options)")
  show ?thesis
  proof (cases res)
    case (Inl e)
    with r verifyToken_of_failure [of P dateNow token options e calls] show ?thesis by simp
  next
    case (Inr pd)
    obtain payload doc where pd: "pd = (payload, doc)" by (cases pd)
    with r Inr
    have ok: "verifyToken_try P dateNow token ?url ?iss (maxTokenAge options)
                = (Inr (payload, doc), calls)"
      by simp
    from verifyToken_try_returns_payload [OF ok] verifyToken_of_success [OF ok]
    show ?thesis by simp
  qed
qed

text \<open>
  Claim C6 at a token that verifies on the stand-in platform and at a token with a single
  segment.
\<close>

theorem verifyToken_never_throws_witness:
  "success (fst (verifyToken demo_platform 0 ''E.S.s''
       \<lparr>didBaseUrl = None, allowedIssuers = None, maxTokenAge = None\<rparr>))
   \<and> error (fst (verifyToken demo_platform 0 ''E.S.s''
       \<lparr>didBaseUrl = None, allowedIssuers = None, maxTokenAge = None\<rparr>)) = None
   \<and> \<not> success (fst (verifyToken demo_platform 0 ''x''
       \<lparr>didBaseUrl = None, allowedIssuers = None, maxTokenAge = None\<rparr>))
   \<and> claims (fst (verifyToken demo_platform 0 ''x''
       \<lparr>didBaseUrl = None, allowedIssuers = None, maxTokenAge = None\<rparr>)) = None"
proof -
  let ?o = "\<lparr>didBaseUrl = None, allowedIssuers = None, maxTokenAge = None\<rparr>"
  obtain calls where
    "verifyToken_try demo_platform 0 ''E.S.s'' ''https://api.sensespace.xyz/api/did/''
       [''sensespace''] None = (Inr (JObj [(''sub'', JStr demo_address)], None), calls)"
    using demo_verify_ESs by blast
  then have "verifyToken_try demo_platform 0 ''E.S.s''
          (case didBaseUrl ?o of None \<Rightarrow> ''https://api.sensespace.xyz/api/did/'' | Some u \<Rightarrow> u)
          (case allowedIssuers ?o of None \<Rightarrow> [''sensespace''] | Some l \<Rightarrow> l)
          (maxTokenAge ?o) = (Inr (JObj [(''sub'', JStr demo_address)], None), calls)"
    by simp
  from verifyToken_of_success [OF this]
  have s: "success (fst (verifyToken demo_platform 0 ''E.S.s'' ?o))" by simp
  with verifyToken_never_throws [of demo_platform 0 "''E.S.s''" ?o]
  have 1: "error (fst (verifyToken demo_platform 0 ''E.S.s'' ?o)) = None" by blast
  have "verifyToken_try demo_platform 0 ''x''
          (case didBaseUrl ?o of None \<Rightarrow> ''https://api.sensespace.xyz/api/did/'' | Some u \<Rightarrow> u)
          (case allowedIssuers ?o of None \<Rightarrow> [''sensespace''] | Some l \<Rightarrow> l)
          (maxTokenAge ?o) = (Inl InvalidJWTFormat, [])"
    by (simp add: verifyToken_try_def demo_splitJWT_x)
  from verifyToken_of_failure [OF this]
  have f: "\<not> success (fst (verifyToken demo_platform 0 ''x'' ?o))" by simp
  with verifyToken_never_throws [of demo_platform 0 "''x''" ?o]
  have 2: "claims (fst (verifyToken demo_platform 0 ''x'' ?o)) = None" by blast
  from s 1 f 2 show ?thesis by blast
qed

section \<open>Issuance: the private key and the claims\<close>

lemma obj_spread_Cons:
  "obj_spread base ((k, v) # extra) = obj_spread (AList.update k v base) extra"
  by (simp add: obj_spread_def)

lemma map_of_obj_spread:
  "distinct (map fst extra) \<Longrightarrow>
   map_of (obj_spread base extra) k =
     (case map_of extra k of Some v \<Rightarrow> Some v | None \<Rightarrow> map_of base k)"
proof (induction extra arbitrary: base)
  case Nil
  then show ?case by (simp add: obj_spread_def)
next
  case (Cons kv extra)
  obtain k' v' where kv: "kv = (k', v')" by (cases kv)
  from Cons.prems kv have d: "distinct (map fst extra)" and fresh: "k' \<notin> fst ` set extra"
    by simp_all
  from fresh have none: "map_of extra k' = None" by (simp add: map_of_eq_None_iff)
  show ?case
  proof (cases "k = k'")
    case True
    with kv none Cons.IH [OF d, of "AList.update k' v' base"] show ?thesis
      by (simp add: obj_spread_Cons update_conv')
  next
    case False
    with kv Cons.IH [OF d, of "AList.update k' v' base"] show ?thesis
      by (simp add: obj_spread_Cons update_conv' split: option.splits)
  qed
qed

lemma privateKeyBytes_cases:
  "privateKeyBytes P (Inr b) = Inr b"
  "privateKeyBytes P (Inl s) = Inr (hex_decode s)"
  by (simp_all add: privateKeyBytes_def buffer_from_hex_def)

lemma hex_decode_base64_key:
  "hex_decode ''BwcHBwcHBwcHBwcHBwcHBwcHBwcHBwcHBwcHBwcHBwc='' = []"
  by (simp add: hex_value_def)

text \<open>
  Claim C8, at the base64 form of the key of 32 bytes \<open>0x07\<close>. The hex decoding of a
  string key never throws, so the \<open>catch\<close> that decodes base64 is never entered: the key
  bytes are always the hex decoding, whatever the base64 decoder of the platform would
  return. The first pair \<open>Bw\<close> of this key is not a pair of hexadecimal digits, the hex
  decoding is empty, and \<open>generateToken\<close> throws "Ed25519 private key must be 32 bytes,
  got 0" on every platform, where the claim has the key decoded as base64 into 32 bytes
  and a token issued.
\<close>

theorem generateToken_base64_key_rejected:
  "privateKeyBytes P (Inl s) = Inr (hex_decode s)
   \<and> generateToken P dateNow
        \<lparr>privateKey = Inl ''BwcHBwcHBwcHBwcHBwcHBwcHBwcHBwcHBwcHBwcHBwc='',
         subject = sj, issuer = isr, expiresIn = ex, additionalClaims = ac\<rparr>
       = Inl (InvalidPrivateKeyLength 0)
   \<and> error_message P (InvalidPrivateKeyLength 0)
       = ''Ed25519 private key must be 32 bytes, got 0''"
proof -
  have dec: "privateKeyBytes P (Inl s) = Inr (hex_decode s)" for s
    by (rule privateKeyBytes_cases)
  have key: "privateKeyBytes P (Inl ''BwcHBwcHBwcHBwcHBwcHBwcHBwcHBwcHBwcHBwcHBwc='') = Inr []"
    by (simp only: dec hex_decode_base64_key)
  have thrown: "generateToken P dateNow
        \<lparr>privateKey = Inl ''BwcHBwcHBwcHBwcHBwcHBwcHBwcHBwcHBwcHBwcHBwc='',
         subject = sj, issuer = isr, expiresIn = ex, additionalClaims = ac\<rparr>
       = Inl (InvalidPrivateKeyLength 0)"
    by (simp add: generateToken_def key)
  have msg: "error_message P (InvalidPrivateKeyLength 0)
               = ''Ed25519 private key must be 32 bytes, got 0''"
    by (simp add: show_nat_def)
  from dec thrown msg show ?thesis by blast
qed

lemma generateToken_token:
  assumes "privateKeyBytes P (privateKey options) = Inr keyBytes" and "length keyBytes = 32"
  shows "\<exists>hdr sg. generateToken P dateNow options =
           Inr (hdr @ ''.''
                @ b64urlEncode P (buffer_from_utf8 P
                    (json_stringify P (JObj (generateToken_payload P dateNow options keyBytes))))
                @ ''.'' @ sg)"
proof -
  let ?h = "b64urlEncode P (buffer_from_utf8 P
              (json_stringify P (JObj [(''alg'', JStr ''EdDSA''), (''typ'', JStr ''JWT'')])))"
  let ?p = "b64urlEncode P (buffer_from_utf8 P
              (json_stringify P (JObj (generateToken_payload P dateNow options keyBytes))))"
  have "generateToken P dateNow options =
          Inr (?h @ ''.'' @ ?p @ ''.''
               @ b64urlEncode P (ed25519_sign P (buffer_from_utf8 P (?h @ ''.'' @ ?p)) keyBytes))"
    using assms by (simp add: generateToken_def Let_def)
  then show ?thesis by blast
qed

lemma generateSS58Address_nonempty: "generateSS58Address P publicKey prefix \<noteq> []"
  unfolding generateSS58Address_def Let_def by (rule bs58_encode_nonempty) simp

text \<open>
  Claim C7 as stated fails when the subject is given as the empty string: \<open>subject ||
  ss58Address\<close> takes the address, which is never empty, so \<open>sub\<close> is not the given
  subject.
\<close>

theorem generateToken_empty_subject_counterexample:
  "subject \<lparr>privateKey = Inr (replicate 32 7), subject = Some [], issuer = None,
            expiresIn = None, additionalClaims = None\<rparr> = Some []
   \<and> map_of (generateToken_payload demo_platform 0
         \<lparr>privateKey = Inr (replicate 32 7), subject = Some [], issuer = None,
          expiresIn = None, additionalClaims = None\<rparr> (replicate 32 7)) ''sub''
       = Some (JStr (generateSS58Address demo_platform (replicate 32 7) 42))
   \<and> generateSS58Address demo_platform (replicate 32 7) 42 \<noteq> []"
proof -
  have g: "ed25519_getPublicKey demo_platform k = k" for k
    by (simp add: demo_platform_def)
  show ?thesis
    by (simp add: generateToken_payload_def Let_def obj_spread_def g
                  generateSS58Address_nonempty)
qed

text \<open>
  Claim C7, amended. With a key of 32 bytes the issued token carries the payload, whose
  fields are \<open>iat = now\<close>, \<open>exp = now + expiresIn\<close> (30 days by default), \<open>nbf = now\<close>,
  \<open>iss = issuer\<close> (default \<open>sensespace\<close>) and \<open>sub\<close> = the given subject when it is a
  non-empty string, otherwise the SS58 address of the key, each unless
  \<open>additionalClaims\<close> has the same key; every entry of \<open>additionalClaims\<close> is in the
  payload with its own value, so it overrides a fixed field of the same name.
\<close>

theorem generateToken_claims:
  assumes "privateKeyBytes P (privateKey options) = Inr keyBytes"
    and "length keyBytes = 32"
    and "extra = (case additionalClaims options of None \<Rightarrow> [] | Some c \<Rightarrow> c)"
    and "distinct (map fst extra)"
    and "now = of_int (dateNow div 1000)"
    and "address = generateSS58Address P (ed25519_getPublicKey P keyBytes) 42"
    and "payload = generateToken_payload P dateNow options keyBytes"
  shows "(\<exists>hdr sg. generateToken P dateNow options =
            Inr (hdr @ ''.''
                 @ b64urlEncode P (buffer_from_utf8 P (json_stringify P (JObj payload)))
                 @ ''.'' @ sg))
       \<and> (\<forall>k v. map_of extra k = Some v \<longrightarrow> map_of payload k = Some v)
       \<and> (map_of extra ''iat'' = None \<longrightarrow> map_of payload ''iat'' = Some (JNum now))
       \<and> (map_of extra ''exp'' = None \<longrightarrow>
            map_of payload ''exp'' =
              Some (JNum (now + (case expiresIn options of
                                   None \<Rightarrow> 30 * 24 * 60 * 60 | Some x \<Rightarrow> x))))
       \<and> (map_of extra ''nbf'' = None \<longrightarrow> map_of payload ''nbf'' = Some (JNum now))
       \<and> (map_of extra ''iss'' = None \<longrightarrow>
            map_of payload ''iss'' =
              Some (JStr (case issuer options of None \<Rightarrow> ''sensespace'' | Some i \<Rightarrow> i)))
       \<and> (map_of extra ''sub'' = None \<longrightarrow>
            map_of payload ''sub'' =
              Some (JStr (case subject options of
                            None \<Rightarrow> address
                          | Some s \<Rightarrow> if s \<noteq> [] then s else address)))"
proof -
  let ?base = "[(''iat'', JNum now),
                (''exp'', JNum (now + (case expiresIn options of
                                         None \<Rightarrow> 30 * 24 * 60 * 60 | Some x \<Rightarrow> x))),
                (''nbf'', JNum now),
                (''iss'', JStr (case issuer options of None \<Rightarrow> ''sensespace'' | Some i \<Rightarrow> i)),
                (''sub'', JStr (case subject options of
                                  None \<Rightarrow> address
                                | Some s \<Rightarrow> if s \<noteq> [] then s else address))]"
  have p: "payload = obj_spread ?base extra"
    unfolding assms(3,5,6,7) generateToken_payload_def Let_def by (rule refl)
  have look: "map_of payload k =
                (case map_of extra k of Some v \<Rightarrow> Some v | None \<Rightarrow> map_of ?base k)" for k
    unfolding p using assms(4) by (rule map_of_obj_spread)
  have tok: "\<exists>hdr sg. generateToken P dateNow options =
            Inr (hdr @ ''.''
                 @ b64urlEncode P (buffer_from_utf8 P (json_stringify P (JObj payload)))
                 @ ''.'' @ sg)"
    unfolding assms(7) using assms(1,2) by (rule generateToken_token)
  have over: "\<forall>k v. map_of extra k = Some v \<longrightarrow> map_of payload k = Some v"
    by (simp add: look)
  have iat: "map_of extra ''iat'' = None \<longrightarrow> map_of payload ''iat'' = Some (JNum now)"
    by (simp add: look)
  have exp: "map_of extra ''exp'' = None \<longrightarrow>
            map_of payload ''exp'' =
              Some (JNum (now + (case expiresIn options of
                                   None \<Rightarrow> 30 * 24 * 60 * 60 | Some x \<Rightarrow> x)))"
    by (simp add: look)
  have nbf: "map_of extra ''nbf'' = None \<longrightarrow> map_of payload ''nbf'' = Some (JNum now)"
    by (simp add: look)
  have iss: "map_of extra ''iss'' = None \<longrightarrow>
            map_of payload ''iss'' =
              Some (JStr (case issuer options of None \<Rightarrow> ''sensespace'' | Some i \<Rightarrow> i))"
    by (simp add: look)
  have sub: "map_of extra ''sub'' = None \<longrightarrow>
            map_of payload ''sub'' =
              Some (JStr (case subject options of
                            None \<Rightarrow> address
                          | Some s \<Rightarrow> if s \<noteq> [] then s else address))"
    by (simp add: look)
  from tok over iat exp nbf iss sub show ?thesis by blast
qed


text \<open>
  Claim C7, amended, at a token issued at 5 s with \<open>expiresIn = 60\<close>, subject \<open>alice\<close> and
  additional claims that set \<open>iat\<close> and \<open>role\<close>.
\<close>

theorem generateToken_claims_witness:
  "privateKeyBytes demo_platform (Inr (replicate 32 7)) = Inr (replicate 32 7)
   \<and> length (replicate 32 (7::byte)) = 32
   \<and> distinct (map fst [(''iat'', JNum 1), (''role'', JStr ''admin'')])
   \<and> map_of (generateToken_payload demo_platform 5000
         \<lparr>privateKey = Inr (replicate 32 7), subject = Some ''alice'', issuer = None,
          expiresIn = Some 60,
          additionalClaims = Some [(''iat'', JNum 1), (''role'', JStr ''admin'')]\<rparr>
         (replicate 32 7)) ''iat'' = Some (JNum 1)
   \<and> map_of (generateToken_payload demo_platform 5000
         \<lparr>privateKey = Inr (replicate 32 7), subject = Some ''alice'', issuer = None,
          expiresIn = Some 60,
          additionalClaims = Some [(''iat'', JNum 1), (''role'', JStr ''admin'')]\<rparr>
         (replicate 32 7)) ''exp'' = Some (JNum 65)
   \<and> map_of (generateToken_payload demo_platform 5000
         \<lparr>privateKey = Inr (replicate 32 7), subject = Some ''alice'', issuer = None,
          expiresIn = Some 60,
          additionalClaims = Some [(''iat'', JNum 1), (''role'', JStr ''admin'')]\<rparr>
         (replicate 32 7)) ''sub'' = Some (JStr ''alice'')"
proof -
  define K :: bytes where "K = replicate 32 7"
  define o1 where "o1 = \<lparr>privateKey = Inr K, subject = Some ''alice'', issuer = None,
          expiresIn = Some 60,
          additionalClaims = Some [(''iat'', JNum 1), (''role'', JStr ''admin'')]\<rparr>"
  have a: "privateKeyBytes demo_platform (privateKey o1) = Inr K"
    by (simp add: o1_def privateKeyBytes_def)
  have a': "privateKeyBytes demo_platform (Inr K) = Inr K"
    by (simp add: privateKeyBytes_def)
  have b: "length K = 32" by (simp add: K_def)
  have d: "distinct (map fst (case additionalClaims o1 of None \<Rightarrow> [] | Some c \<Rightarrow> c))"
    by (simp add: o1_def)
  have d': "distinct (map fst [(''iat'', JNum 1), (''role'', JStr ''admin'')])" by simp
  have e1: "map_of (case additionalClaims o1 of None \<Rightarrow> [] | Some c \<Rightarrow> c) ''iat''
              = Some (JNum 1)"
    by (simp add: o1_def)
  have e2: "map_of (case additionalClaims o1 of None \<Rightarrow> [] | Some c \<Rightarrow> c) ''exp'' = None"
    by (simp add: o1_def)
  have e3: "map_of (case additionalClaims o1 of None \<Rightarrow> [] | Some c \<Rightarrow> c) ''sub'' = None"
    by (simp add: o1_def)
  note t = generateToken_claims [OF a b refl d refl refl refl, of 5000]
  from t e1 have 1: "map_of (generateToken_payload demo_platform 5000 o1 K) ''iat''
                       = Some (JNum 1)"
    by blast
  from t e2 have "map_of (generateToken_payload demo_platform 5000 o1 K) ''exp''
      = Some (JNum (of_int (5000 div 1000)
          + (case expiresIn o1 of None \<Rightarrow> 30 * 24 * 60 * 60 | Some x \<Rightarrow> x)))"
    by blast
  then have 2: "map_of (generateToken_payload demo_platform 5000 o1 K) ''exp'' = Some (JNum 65)"
    by (simp add: o1_def)
  from t e3 have "map_of (generateToken_payload demo_platform 5000 o1 K) ''sub''
      = Some (JStr (case subject o1 of
                      None \<Rightarrow> generateSS58Address demo_platform
                                (ed25519_getPublicKey demo_platform K) 42
                    | Some s \<Rightarrow> if s \<noteq> [] then s
                               else generateSS58Address demo_platform
                                      (ed25519_getPublicKey demo_platform K) 42))"
    by blast
  then have 3: "map_of (generateToken_payload demo_platform 5000 o1 K) ''sub''
                  = Some (JStr ''alice'')"
    by (simp add: o1_def)
  from a' b d' 1 2 3 show ?thesis unfolding o1_def K_def by blast
qed

end
